theory Spec2Isabelle
  imports Complex_Main "HOL-Library.Sublist"
begin

section \<open>Python values used by the notebook\<close>

text \<open>
  The notebook is sequential glue around LangChain, Chroma and Gradio. Its own code is
  the ingestion loop with \<open>add_metadata\<close>, the conditional rebuild of the vector store
  and the \<open>chat\<close> callback. Exceptions are values of \<open>error\<close>; a function that can
  raise returns \<open>error + 'a\<close> with \<open>Inl\<close> for the exception.
\<close>

datatype error =
    FileNotFoundError
  | ValueError
  | KeyError
  | ServiceError string
  | DimensionMismatch

text \<open>
  A LangChain \<open>Document\<close>: the text and a metadata dictionary. Documents are mutable
  Python objects, so the ingestion code works on references into a heap of documents;
  a reference is the index of the object, allocation appends to the heap.
\<close>

record document =
  page_content :: string
  metadata :: "string \<rightharpoonup> string"

type_synonym ref = nat
type_synonym heap = "document list"

section \<open>Document loading\<close>

text \<open>
  \<^verbatim>\<open>
  def add_metadata(doc, doc_type):
      doc.metadata["doc_type"] = doc_type
      return doc
  \<close>
  The assignment mutates the object \<open>doc\<close> refers to; the function returns the reference
  it was given. A reference always denotes a live object in Python; for an index beyond
  the heap the list update below leaves the heap as it is.
\<close>

definition add_metadata :: "ref \<Rightarrow> string \<Rightarrow> heap \<Rightarrow> ref \<times> heap" where
  "add_metadata doc doc_type h =
     (doc, h[doc := (h ! doc)\<lparr>metadata := (metadata (h ! doc))(''doc_type'' \<mapsto> doc_type)\<rparr>])"

text \<open>
  The file system the notebook reads: every entry by its path relative to the working
  directory, in directory-listing order.
\<close>

datatype entry = FileE string | DirE

type_synonym fs = "(string \<times> entry) list"

text \<open>\<open>os.path.basename\<close> and \<open>os.path.dirname\<close> (posixpath): cut at the last slash.\<close>

definition basename :: "string \<Rightarrow> string" where
  "basename p = rev (takeWhile (\<lambda>c. c \<noteq> CHR ''/'') (rev p))"

definition dirname :: "string \<Rightarrow> string" where
  "dirname p =
     (let head = rev (dropWhile (\<lambda>c. c \<noteq> CHR ''/'') (rev p))
      in if head \<noteq> [] \<and> \<not> list_all (\<lambda>c. c = CHR ''/'') head
         then rev (dropWhile (\<lambda>c. c = CHR ''/'') (rev head)) else head)"

definition is_hidden :: "string \<Rightarrow> bool" where
  "is_hidden name = (case name of [] \<Rightarrow> False | c # _ \<Rightarrow> c = CHR ''.'')"

definition is_child :: "string \<Rightarrow> string \<Rightarrow> bool" where
  "is_child d p =
     (prefix (d @ ''/'') p \<and>
      (let n = drop (length d + 1) p in n \<noteq> [] \<and> CHR ''/'' \<notin> set n))"

text \<open>
  \<open>glob.glob(d + "/*")\<close>: the entries directly inside directory \<open>d\<close> whose names do not
  start with a dot, each as \<open>d/name\<close>. A directory that does not exist (or a path that is
  not a directory) has no listing, and the result is the empty list: \<open>glob\<close> raises
  nothing.
\<close>

definition glob_star :: "fs \<Rightarrow> string \<Rightarrow> string list" where
  "glob_star files d =
     (case map_of files d of
        Some DirE \<Rightarrow>
          filter (\<lambda>p. is_child d p \<and> \<not> is_hidden (basename p)) (map fst files)
      | _ \<Rightarrow> [])"

text \<open>\<^verbatim>\<open>folders = glob.glob("knowledge-base/*")\<close>\<close>

definition folders :: "fs \<Rightarrow> string list" where
  "folders files = glob_star files ''knowledge-base''"

fun parts :: "string \<Rightarrow> string list" where
  "parts [] = [[]]"
| "parts (c # cs) =
     (if c = CHR ''/'' then [] # parts cs
      else (case parts cs of [] \<Rightarrow> [[c]] | x # xs \<Rightarrow> (c # x) # xs))"

definition is_under :: "string \<Rightarrow> string \<Rightarrow> bool" where
  "is_under d p = (prefix (d @ ''/'') p \<and> drop (length d + 1) p \<noteq> [])"

definition relative_to :: "string \<Rightarrow> string \<Rightarrow> string" where
  "relative_to d p = drop (length d + 1) p"

definition is_visible :: "string \<Rightarrow> bool" where
  "is_visible rel = list_all (\<lambda>part. \<not> is_hidden part) (parts rel)"

text \<open>
  Modelled from the spec: \<open>DirectoryLoader(folder, glob="**/*.md", loader_cls=TextLoader,
  ...).load()\<close> is LangChain code, not part of the repository. Section 4.1: it
  "recursively collects files matching a markdown extension filter, reads their text
  ... and tags each resulting Document"; the source path is the document's \<open>source\<close>
  metadata (section 3). The pattern \<open>**/*.md\<close> of the call reaches files at every depth
  below \<open>folder\<close>. The loader refuses a path that does not exist or is not a directory,
  and leaves out files with a hidden component in their relative path.
\<close>

definition directory_loader_load :: "fs \<Rightarrow> string \<Rightarrow> error + document list" where
  "directory_loader_load files path =
     (case map_of files path of
        None \<Rightarrow> Inl FileNotFoundError
      | Some (FileE _) \<Rightarrow> Inl ValueError
      | Some DirE \<Rightarrow>
          Inr (concat (map (\<lambda>(p, e).
                 case e of
                   DirE \<Rightarrow> []
                 | FileE text \<Rightarrow>
                     if is_under path p \<and> is_visible (relative_to path p)
                        \<and> suffix ''.md'' (basename p)
                     then [\<lparr>page_content = text, metadata = [''source'' \<mapsto> p]\<rparr>]
                     else []) files)))"

text \<open>The loader's documents are fresh objects: they are placed at the end of the heap.\<close>

definition alloc :: "document list \<Rightarrow> heap \<Rightarrow> ref list \<times> heap" where
  "alloc ds h = ([length h ..< length h + length ds], h @ ds)"

text \<open>\<^verbatim>\<open>[add_metadata(doc, doc_type) for doc in folder_docs]\<close>\<close>

fun add_metadata_each :: "ref list \<Rightarrow> string \<Rightarrow> heap \<Rightarrow> ref list \<times> heap" where
  "add_metadata_each [] doc_type h = ([], h)"
| "add_metadata_each (doc # docs) doc_type h =
     (case add_metadata doc doc_type h of
        (r, h1) \<Rightarrow>
          (case add_metadata_each docs doc_type h1 of
             (rs, h2) \<Rightarrow> (r # rs, h2)))"

text \<open>
  \<^verbatim>\<open>
  documents = []
  for folder in folders:
      doc_type = os.path.basename(folder)
      loader = DirectoryLoader(folder, glob="**/*.md", ...)
      folder_docs = loader.load()
      documents.extend([add_metadata(doc, doc_type) for doc in folder_docs])
  \<close>
  An exception of the loader leaves the loop.
\<close>

fun load_folders :: "fs \<Rightarrow> string list \<Rightarrow> ref list \<Rightarrow> heap \<Rightarrow> error + (ref list \<times> heap)" where
  "load_folders files [] documents h = Inr (documents, h)"
| "load_folders files (folder # rest) documents h =
     (let doc_type = basename folder in
      case directory_loader_load files folder of
        Inl e \<Rightarrow> Inl e
      | Inr loaded \<Rightarrow>
          (case alloc loaded h of
             (folder_docs, h1) \<Rightarrow>
               (case add_metadata_each folder_docs doc_type h1 of
                  (tagged, h2) \<Rightarrow> load_folders files rest (documents @ tagged) h2)))"

definition documents :: "fs \<Rightarrow> error + (ref list \<times> heap)" where
  "documents files = load_folders files (folders files) [] []"

text \<open>
  Modelled from the spec: \<open>text_splitter.split_documents\<close> is LangChain code, not part of
  the repository. Section 4.2: the output is an "ordered sequence of Chunks preserving
  source Document metadata". How one text is cut is the splitter's own rule and is the
  parameter \<open>split_text\<close> here.
\<close>

definition split_documents :: "(string \<Rightarrow> string list) \<Rightarrow> document list \<Rightarrow> document list" where
  "split_documents split_text docs =
     concat (map (\<lambda>d. map (\<lambda>t. \<lparr>page_content = t, metadata = metadata d\<rparr>)
                          (split_text (page_content d))) docs)"

text \<open>\<^verbatim>\<open>chunks = text_splitter.split_documents(documents)\<close>\<close>

definition chunks :: "(string \<Rightarrow> string list) \<Rightarrow> fs \<Rightarrow> error + document list" where
  "chunks split_text files =
     (case documents files of
        Inl e \<Rightarrow> Inl e
      | Inr (docs, h) \<Rightarrow> Inr (split_documents split_text (map (\<lambda>r. h ! r) docs)))"

text \<open>
  What the claims say about one document or chunk. The immediate parent folder of a
  file is the base name of its directory name; the first-level folder is the component
  right below the knowledge-base root.
\<close>

definition parent_folder_tagged :: "document \<Rightarrow> bool" where
  "parent_folder_tagged d =
     (case metadata d ''source'' of
        None \<Rightarrow> False
      | Some src \<Rightarrow> metadata d ''doc_type'' = Some (basename (dirname src)))"

definition first_level_tagged :: "document \<Rightarrow> bool" where
  "first_level_tagged d =
     (case metadata d ''source'' of
        None \<Rightarrow> False
      | Some src \<Rightarrow>
          (case parts src of
             kb # name # _ # _ \<Rightarrow>
               kb = ''knowledge-base'' \<and> metadata d ''doc_type'' = Some name
           | _ \<Rightarrow> False))"

definition directly_inside :: "document \<Rightarrow> bool" where
  "directly_inside d =
     (case metadata d ''source'' of
        None \<Rightarrow> False
      | Some src \<Rightarrow> length (parts src) = 3)"

text \<open>The effect of \<open>add_metadata\<close> on the one object it touches.\<close>

definition set_doc_type :: "string \<Rightarrow> document \<Rightarrow> document" where
  "set_doc_type t d = d\<lparr>metadata := (metadata d)(''doc_type'' \<mapsto> t)\<rparr>"

text \<open>A document loaded from below a first-level folder and tagged with that folder's
  name.\<close>

definition tagged_below :: "document \<Rightarrow> bool" where
  "tagged_below d =
     (\<exists>n rel. metadata d ''source'' = Some (''knowledge-base'' @ CHR ''/'' # n @ CHR ''/'' # rel)
        \<and> n \<noteq> [] \<and> CHR ''/'' \<notin> set n \<and> rel \<noteq> []
        \<and> metadata d ''doc_type'' = Some n)"

text \<open>Inputs for the evaluated examples: a splitter that keeps each text whole, and
  three small file systems.\<close>

definition whole_text :: "string \<Rightarrow> string list" where
  "whole_text t = [t]"

definition nested_fs :: fs where
  "nested_fs =
     [(''knowledge-base'', DirE),
      (''knowledge-base/a'', DirE),
      (''knowledge-base/a/b'', DirE),
      (''knowledge-base/a/b/c.md'', FileE ''text'')]"

definition flat_fs :: fs where
  "flat_fs =
     [(''knowledge-base'', DirE),
      (''knowledge-base/faq'', DirE),
      (''knowledge-base/faq/q.md'', FileE ''question''),
      (''knowledge-base/policies'', DirE),
      (''knowledge-base/policies/p.md'', FileE ''policy'')]"

definition no_root_fs :: fs where
  "no_root_fs = [(''notes'', DirE), (''notes/n.md'', FileE ''note'')]"

section \<open>The vector store and its rebuild\<close>

type_synonym vector = "real list"

record embedded_chunk =
  ec_chunk :: document
  ec_vector :: vector

text \<open>
  Modelled from the spec: the vector store is Chroma, not part of the repository.
  Section 4.4: \<open>reset()\<close> "deletes any existing persisted collection", \<open>add\<close> "inserts
  entries; assigns each a stable identifier", \<open>count()\<close> "returns number of stored
  vectors"; "every stored vector has dimensionality D; the store rejects ... insertion of
  a vector with mismatched dimensionality", where D is fixed by the first vector stored
  (section 3).
\<close>

record vector_store =
  entries :: "(nat \<times> embedded_chunk) list"
  next_id :: nat

definition empty_store :: vector_store where
  "empty_store = \<lparr>entries = [], next_id = 0\<rparr>"

definition reset :: "vector_store \<Rightarrow> vector_store" where
  "reset s = empty_store"

definition dimension :: "vector_store \<Rightarrow> embedded_chunk list \<Rightarrow> nat option" where
  "dimension s es =
     (case entries s of
        (_, e) # _ \<Rightarrow> Some (length (ec_vector e))
      | [] \<Rightarrow> (case es of [] \<Rightarrow> None | e # _ \<Rightarrow> Some (length (ec_vector e))))"

definition add :: "embedded_chunk list \<Rightarrow> vector_store \<Rightarrow> error + vector_store" where
  "add es s =
     (case dimension s es of
        None \<Rightarrow> Inr s
      | Some D \<Rightarrow>
          if list_all (\<lambda>e. length (ec_vector e) = D) es
          then Inr \<lparr>entries = entries s @ zip [next_id s ..< next_id s + length es] es,
                    next_id = next_id s + length es\<rparr>
          else Inl DimensionMismatch)"

definition count :: "vector_store \<Rightarrow> nat" where
  "count s = length (entries s)"

text \<open>
  Modelled from the spec: the embedding service is external (section 4.3, "text \<rightarrow>
  vector of D real numbers"; "network/auth errors propagate"). It is the parameter
  \<open>embeddings\<close>; embedding a batch stops at the first failure.
\<close>

fun embed_documents :: "(string \<Rightarrow> error + vector) \<Rightarrow> string list \<Rightarrow> error + vector list" where
  "embed_documents embeddings [] = Inr []"
| "embed_documents embeddings (t # ts) =
     (case embeddings t of
        Inl e \<Rightarrow> Inl e
      | Inr v \<Rightarrow>
          (case embed_documents embeddings ts of
             Inl e \<Rightarrow> Inl e
           | Inr vs \<Rightarrow> Inr (v # vs)))"

text \<open>
  Modelled from the spec: \<open>Chroma.from_documents(documents=chunks, embedding=embeddings,
  persist_directory=db_name)\<close> embeds every chunk and adds the embedded chunks to the
  collection persisted under \<open>db_name\<close>, which it creates when there is none. The
  persisted state is \<open>None\<close> when the directory \<open>db_name\<close> does not exist.
\<close>

definition from_documents ::
  "(string \<Rightarrow> error + vector) \<Rightarrow> document list \<Rightarrow> vector_store option \<Rightarrow> error + vector_store" where
  "from_documents embeddings cs db =
     (case embed_documents embeddings (map page_content cs) of
        Inl e \<Rightarrow> Inl e
      | Inr vs \<Rightarrow>
          add (map (\<lambda>(c, v). \<lparr>ec_chunk = c, ec_vector = v\<rparr>) (zip cs vs))
              (case db of None \<Rightarrow> empty_store | Some s \<Rightarrow> s))"

text \<open>
  \<^verbatim>\<open>
  if os.path.exists(db_name):
      Chroma(persist_directory=db_name, embedding_function=embeddings).delete_collection()
  vectorstore = Chroma.from_documents(documents=chunks, embedding=embeddings,
                                      persist_directory=db_name)
  \<close>
\<close>

definition rebuild ::
  "(string \<Rightarrow> error + vector) \<Rightarrow> document list \<Rightarrow> vector_store option \<Rightarrow> error + vector_store" where
  "rebuild embeddings cs db =
     (let db1 = (case db of None \<Rightarrow> None | Some s \<Rightarrow> Some (reset s))
      in from_documents embeddings cs db1)"

section \<open>The conversation chain and the chat callback\<close>

text \<open>
  Modelled from the spec: the conversation memory is LangChain's
  \<open>ConversationBufferMemory\<close>, not part of the repository. Section 4.5: \<open>append(question,
  answer)\<close> and \<open>history()\<close>, "an append-only ordered log" of turns \<open>{question text, answer
  text, ordinal position}\<close> (section 3).
\<close>

record turn =
  turn_question :: string
  turn_answer :: string
  turn_ordinal :: nat

type_synonym memory = "turn list"

definition memory_append :: "string \<Rightarrow> string \<Rightarrow> memory \<Rightarrow> memory" where
  "memory_append q a m = m @ [\<lparr>turn_question = q, turn_answer = a, turn_ordinal = length m\<rparr>]"

definition memory_history :: "memory \<Rightarrow> turn list" where
  "memory_history m = m"

record prompt =
  retrieved_chunks :: "document list"
  chat_history :: "turn list"
  new_question :: string

definition assemble_prompt :: "document list \<Rightarrow> turn list \<Rightarrow> string \<Rightarrow> prompt" where
  "assemble_prompt retrieved hist q =
     \<lparr>retrieved_chunks = retrieved, chat_history = hist, new_question = q\<rparr>"

text \<open>
  Modelled from the spec: \<open>conversation_chain.invoke\<close> is LangChain's
  \<open>ConversationalRetrievalChain\<close>, not part of the repository. Section 4.6: per turn
  "RECEIVE_QUESTION \<rightarrow> EMBED_QUESTION \<rightarrow> RETRIEVE(k) \<rightarrow> ASSEMBLE_PROMPT(retrieved chunks +
  full history + question) \<rightarrow> CALL_LLM \<rightarrow> RECORD_TURN \<rightarrow> RETURN_ANSWER. Failure at
  EMBED_QUESTION or CALL_LLM surfaces as a user-visible error and does not record a
  turn". The embedding service, the retriever and the chat-completion service are the
  parameters \<open>embeddings\<close>, \<open>retriever\<close> and \<open>llm\<close>. The chain takes a dictionary with the
  key \<open>question\<close> and returns one with the key \<open>answer\<close>.
\<close>

definition conversation_chain_invoke ::
  "(string \<Rightarrow> error + vector) \<Rightarrow> (vector \<Rightarrow> document list) \<Rightarrow> (prompt \<Rightarrow> error + string)
   \<Rightarrow> (string \<rightharpoonup> string) \<Rightarrow> memory \<Rightarrow> (error + (string \<rightharpoonup> string)) \<times> memory" where
  "conversation_chain_invoke embeddings retriever llm inputs m =
     (case inputs ''question'' of
        None \<Rightarrow> (Inl ValueError, m)
      | Some q \<Rightarrow>
          (case embeddings q of
             Inl e \<Rightarrow> (Inl e, m)
           | Inr v \<Rightarrow>
               (case llm (assemble_prompt (retriever v) (memory_history m) q) of
                  Inl e \<Rightarrow> (Inl e, m)
                | Inr a \<Rightarrow>
                    (Inr [''question'' \<mapsto> q, ''answer'' \<mapsto> a], memory_append q a m))))"

text \<open>
  \<^verbatim>\<open>
  def chat(question, history):
      result = conversation_chain.invoke({"question": question})
      return result["answer"]
  \<close>
  The chain is a global of the notebook; here it is the parameter \<open>conversation_chain\<close>, a
  function on the chain's state \<open>'s\<close> (its memory). An exception of the chain is not
  caught, so it leaves \<open>chat\<close> as it is; a result without the key \<open>answer\<close> raises
  \<open>KeyError\<close>. The parameter \<open>history\<close> is Gradio's list of the messages shown so far.
\<close>

definition chat ::
  "((string \<rightharpoonup> string) \<Rightarrow> 's \<Rightarrow> (error + (string \<rightharpoonup> string)) \<times> 's)
   \<Rightarrow> string \<Rightarrow> (string \<rightharpoonup> string) list \<Rightarrow> 's \<Rightarrow> (error + string) \<times> 's" where
  "chat conversation_chain question history s =
     (case conversation_chain [''question'' \<mapsto> question] s of
        (Inl e, s') \<Rightarrow> (Inl e, s')
      | (Inr result, s') \<Rightarrow>
          (case result ''answer'' of
             None \<Rightarrow> (Inl KeyError, s')
           | Some a \<Rightarrow> (Inr a, s')))"

text \<open>Inputs for the evaluated examples of this part.\<close>

definition two_chunks :: "document list" where
  "two_chunks =
     [\<lparr>page_content = ''alpha'', metadata = [''doc_type'' \<mapsto> ''faq'']\<rparr>,
      \<lparr>page_content = ''beta'', metadata = [''doc_type'' \<mapsto> ''policies'']\<rparr>]"

definition unit_embedding :: "string \<Rightarrow> error + vector" where
  "unit_embedding t = Inr [real (length t), 1]"

definition stale_store :: vector_store where
  "stale_store =
     \<lparr>entries = [(0, \<lparr>ec_chunk = \<lparr>page_content = ''old'', metadata = Map.empty\<rparr>,
                       ec_vector = [0, 0]\<rparr>)],
      next_id = 1\<rparr>"

definition no_context :: "vector \<Rightarrow> document list" where
  "no_context v = []"

definition failing_llm :: "prompt \<Rightarrow> error + string" where
  "failing_llm p = Inl (ServiceError ''rate limit'')"

definition one_turn :: memory where
  "one_turn = [\<lparr>turn_question = ''hello'', turn_answer = ''hi'', turn_ordinal = 0\<rparr>]"

section \<open>Lemmas about the ingestion loop\<close>

lemma add_metadata_eq: "add_metadata doc t h = (doc, h[doc := set_doc_type t (h ! doc)])"
  by (simp add: add_metadata_def set_doc_type_def)

lemma set_doc_type_idem: "set_doc_type t (set_doc_type t d) = set_doc_type t d"
  by (simp add: set_doc_type_def)

lemma add_metadata_each_refs: "fst (add_metadata_each rs t h) = rs"
  by (induction rs arbitrary: h) (simp_all add: add_metadata_eq case_prod_unfold)

lemma add_metadata_each_length: "length (snd (add_metadata_each rs t h)) = length h"
  by (induction rs arbitrary: h) (simp_all add: add_metadata_eq case_prod_unfold)

lemma add_metadata_each_nth:
  "i < length h \<Longrightarrow>
   snd (add_metadata_each rs t h) ! i =
     (if i \<in> set rs then set_doc_type t (h ! i) else h ! i)"
proof (induction rs arbitrary: h)
  case Nil
  then show ?case by simp
next
  case (Cons r rs)
  let ?h1 = "h[r := set_doc_type t (h ! r)]"
  have len: "i < length ?h1" using Cons.prems by simp
  have step: "snd (add_metadata_each (r # rs) t h) = snd (add_metadata_each rs t ?h1)"
    by (simp add: add_metadata_eq case_prod_unfold)
  show ?case
    unfolding step Cons.IH [OF len]
    using Cons.prems by (cases "i = r") (simp_all add: set_doc_type_idem)
qed

lemma add_metadata_each_alloc:
  "add_metadata_each [length h ..< length h + length ds] t (h @ ds) =
     ([length h ..< length h + length ds], h @ map (set_doc_type t) ds)"
proof (rule prod_eqI)
  show "fst (add_metadata_each [length h ..< length h + length ds] t (h @ ds)) =
        fst ([length h ..< length h + length ds], h @ map (set_doc_type t) ds)"
    by (simp add: add_metadata_each_refs)
next
  show "snd (add_metadata_each [length h ..< length h + length ds] t (h @ ds)) =
        snd ([length h ..< length h + length ds], h @ map (set_doc_type t) ds)"
    by (rule nth_equalityI)
       (auto simp: add_metadata_each_length add_metadata_each_nth nth_append)
qed

lemma load_folders_inv:
  assumes "load_folders files fl docs h = Inr (docs', h')"
    and "\<forall>r \<in> set docs. r < length h"
    and "\<forall>d \<in> set h. P d"
    and "\<And>folder ds d. folder \<in> set fl \<Longrightarrow> directory_loader_load files folder = Inr ds
           \<Longrightarrow> d \<in> set ds \<Longrightarrow> P (set_doc_type (basename folder) d)"
  shows "(\<forall>r \<in> set docs'. r < length h') \<and> (\<forall>d \<in> set h'. P d)"
  using assms
proof (induction fl arbitrary: docs h)
  case Nil
  then show ?case by simp
next
  case (Cons folder rest)
  from Cons.prems(1) obtain loaded where
    ld: "directory_loader_load files folder = Inr loaded"
    by (auto split: sum.splits)
  let ?new = "map (set_doc_type (basename folder)) loaded"
  let ?refs = "[length h ..< length h + length loaded]"
  from Cons.prems(1) ld have rec:
    "load_folders files rest (docs @ ?refs) (h @ ?new) = Inr (docs', h')"
    by (simp add: alloc_def add_metadata_each_alloc)
  have refs: "\<forall>r \<in> set (docs @ ?refs). r < length (h @ ?new)"
    using Cons.prems(2) by auto
  have "\<And>d. d \<in> set loaded \<Longrightarrow> P (set_doc_type (basename folder) d)"
    by (rule Cons.prems(4) [OF _ ld]) simp_all
  then have inv: "\<forall>d \<in> set (h @ ?new). P d"
    using Cons.prems(3) by auto
  show ?case
    by (rule Cons.IH [OF rec refs inv]) (rule Cons.prems(4), auto)
qed

lemma parts_slash: "CHR ''/'' \<notin> set a \<Longrightarrow> parts (a @ CHR ''/'' # b) = a # parts b"
  by (induction a) auto

lemma parts_nonempty: "parts s \<noteq> []"
  by (induction s) (auto split: list.splits)

lemma parts_single: "length (parts s) = Suc 0 \<Longrightarrow> CHR ''/'' \<notin> set s"
  using parts_nonempty by (induction s) (auto split: list.splits if_splits)

lemma basename_append:
  assumes "CHR ''/'' \<notin> set n"
  shows "basename (d @ CHR ''/'' # n) = n"
proof -
  have "takeWhile (\<lambda>c. c \<noteq> CHR ''/'') (rev n @ CHR ''/'' # rev d) =
        rev n @ takeWhile (\<lambda>c. c \<noteq> CHR ''/'') (CHR ''/'' # rev d)"
    by (rule takeWhile_append2) (use assms in auto)
  then show ?thesis by (simp add: basename_def)
qed

lemma dirname_append:
  assumes "CHR ''/'' \<notin> set rel" and "d \<noteq> []" and "last d \<noteq> CHR ''/''"
  shows "dirname (d @ CHR ''/'' # rel) = d"
proof -
  have "dropWhile (\<lambda>c. c \<noteq> CHR ''/'') (rev rel @ CHR ''/'' # rev d) =
        dropWhile (\<lambda>c. c \<noteq> CHR ''/'') (CHR ''/'' # rev d)"
    by (rule dropWhile_append2) (use assms(1) in auto)
  then have a: "dropWhile (\<lambda>c. c \<noteq> CHR ''/'') (rev rel @ CHR ''/'' # rev d) = CHR ''/'' # rev d"
    by simp
  have b: "dropWhile (\<lambda>c. c = CHR ''/'') (rev d) = rev d"
    using assms(2,3) by (cases d rule: rev_cases) auto
  have c: "\<not> list_all (\<lambda>c. c = CHR ''/'') (d @ ''/'')"
    using assms(2,3) by (cases d rule: rev_cases) auto
  show ?thesis
    using a b c by (simp add: dirname_def)
qed

lemma folders_shape:
  "p \<in> set (folders files) \<Longrightarrow>
   \<exists>n. p = ''knowledge-base/'' @ n \<and> n \<noteq> [] \<and> CHR ''/'' \<notin> set n"
  by (auto simp: folders_def glob_star_def is_child_def prefix_def Let_def
           split: option.splits entry.splits)

lemma loader_shape:
  "directory_loader_load files folder = Inr ds \<Longrightarrow> d \<in> set ds \<Longrightarrow>
   \<exists>rel. metadata d ''source'' = Some (folder @ CHR ''/'' # rel) \<and> rel \<noteq> []"
  by (auto simp: directory_loader_load_def is_under_def prefix_def
           split: option.splits entry.splits if_splits)

lemma set_doc_type_tagged:
  assumes "metadata d ''source'' = Some (''knowledge-base'' @ CHR ''/'' # n @ CHR ''/'' # rel)"
    and "n \<noteq> []" and "CHR ''/'' \<notin> set n" and "rel \<noteq> []"
  shows "tagged_below (set_doc_type n d)"
  unfolding tagged_below_def
  by (rule exI [of _ n], rule exI [of _ rel]) (use assms in \<open>simp add: set_doc_type_def\<close>)

lemma loaded_tagged_below:
  assumes "folder \<in> set (folders files)"
    and "directory_loader_load files folder = Inr ds" and "d \<in> set ds"
  shows "tagged_below (set_doc_type (basename folder) d)"
proof -
  from folders_shape [OF assms(1)] obtain n where
    n: "folder = ''knowledge-base/'' @ n" "n \<noteq> []" "CHR ''/'' \<notin> set n"
    by blast
  from loader_shape [OF assms(2,3)] obtain rel where
    rel: "metadata d ''source'' = Some (folder @ CHR ''/'' # rel)" "rel \<noteq> []"
    by blast
  have b: "basename folder = n"
    using basename_append [OF n(3), of "''knowledge-base''"] n(1) by simp
  have "metadata d ''source'' = Some (''knowledge-base'' @ CHR ''/'' # n @ CHR ''/'' # rel)"
    using rel(1) n(1) by simp
  then show ?thesis
    unfolding b using n(2,3) rel(2) by (rule set_doc_type_tagged)
qed

lemma documents_tagged_below:
  assumes "documents files = Inr (docs, h)"
  shows "(\<forall>r \<in> set docs. r < length h) \<and> (\<forall>d \<in> set h. tagged_below d)"
proof (rule load_folders_inv [where P = tagged_below])
  show "load_folders files (folders files) [] [] = Inr (docs, h)"
    using assms by (simp add: documents_def)
qed (simp_all add: loaded_tagged_below)

lemma tagged_below_first_level: "tagged_below d \<Longrightarrow> first_level_tagged d"
proof -
  assume "tagged_below d"
  then obtain n rel where
    s: "metadata d ''source'' = Some (''knowledge-base'' @ CHR ''/'' # n @ CHR ''/'' # rel)"
    and n: "CHR ''/'' \<notin> set n" and t: "metadata d ''doc_type'' = Some n"
    unfolding tagged_below_def by blast
  have kb: "CHR ''/'' \<notin> set ''knowledge-base''" by simp
  have "parts (''knowledge-base'' @ CHR ''/'' # n @ CHR ''/'' # rel)
        = ''knowledge-base'' # n # parts rel"
    by (simp only: parts_slash [OF kb] parts_slash [OF n])
  moreover obtain x xs where "parts rel = x # xs"
    using parts_nonempty [of rel] by (cases "parts rel") auto
  ultimately show ?thesis
    using s t by (simp add: first_level_tagged_def)
qed

lemma tagged_below_parent:
  assumes "tagged_below d" and "directly_inside d"
  shows "parent_folder_tagged d"
proof -
  from assms(1) obtain n rel where
    s: "metadata d ''source'' = Some (''knowledge-base'' @ CHR ''/'' # n @ CHR ''/'' # rel)"
    and n: "n \<noteq> []" "CHR ''/'' \<notin> set n" and t: "metadata d ''doc_type'' = Some n"
    unfolding tagged_below_def by blast
  have kb: "CHR ''/'' \<notin> set ''knowledge-base''" by simp
  have p: "parts (''knowledge-base'' @ CHR ''/'' # n @ CHR ''/'' # rel)
        = ''knowledge-base'' # n # parts rel"
    by (simp only: parts_slash [OF kb] parts_slash [OF n(2)])
  from assms(2) s p have "length (parts rel) = Suc 0"
    by (simp add: directly_inside_def)
  then have rel: "CHR ''/'' \<notin> set rel" by (rule parts_single)
  have l: "last (''knowledge-base'' @ CHR ''/'' # n) \<noteq> CHR ''/''"
    using n by (cases n rule: rev_cases) auto
  have "dirname ((''knowledge-base'' @ CHR ''/'' # n) @ CHR ''/'' # rel)
        = ''knowledge-base'' @ CHR ''/'' # n"
    by (rule dirname_append [OF rel _ l]) simp
  then have "basename (dirname (''knowledge-base'' @ CHR ''/'' # n @ CHR ''/'' # rel)) = n"
    using basename_append [OF n(2), of "''knowledge-base''"] by simp
  then show ?thesis
    using s t by (simp add: parent_folder_tagged_def)
qed

lemma split_documents_metadata:
  "c \<in> set (split_documents split_text ds) \<Longrightarrow> \<exists>d \<in> set ds. metadata c = metadata d"
  by (auto simp: split_documents_def)

lemma metadata_only:
  "metadata c = metadata d \<Longrightarrow> tagged_below c = tagged_below d"
  "metadata c = metadata d \<Longrightarrow> directly_inside c = directly_inside d"
  by (simp_all add: tagged_below_def directly_inside_def)

lemma chunks_tagged_below:
  assumes "chunks split_text files = Inr cs" and "c \<in> set cs"
  shows "tagged_below c"
proof -
  from assms(1) obtain docs h where
    d: "documents files = Inr (docs, h)"
    and cs: "cs = split_documents split_text (map (\<lambda>r. h ! r) docs)"
    by (auto simp: chunks_def split: sum.splits)
  from assms(2) cs obtain r where r: "r \<in> set docs" "metadata c = metadata (h ! r)"
    using split_documents_metadata by fastforce
  from documents_tagged_below [OF d] r(1) have "tagged_below (h ! r)"
    by (metis nth_mem)
  then show ?thesis using r(2) metadata_only(1) by blast
qed

section \<open>The doc_type of documents and chunks\<close>

text \<open>
  C1 (as amended): every ingested document, and every chunk made from it, carries as
  \<open>doc_type\<close> the name of the first-level folder of the knowledge base below which its
  file lies; for a file directly inside that folder this is the name of its immediate
  parent folder.
\<close>

theorem doc_type_is_first_level_folder:
  "(documents files = Inr (docs, h) \<longrightarrow>
      (\<forall>r \<in> set docs. r < length h \<and> first_level_tagged (h ! r)
         \<and> (directly_inside (h ! r) \<longrightarrow> parent_folder_tagged (h ! r))))
   \<and> (chunks split_text files = Inr cs \<longrightarrow>
      (\<forall>c \<in> set cs. first_level_tagged c
         \<and> (directly_inside c \<longrightarrow> parent_folder_tagged c)))"
proof (intro conjI impI ballI)
  fix r assume d: "documents files = Inr (docs, h)" and r: "r \<in> set docs"
  from documents_tagged_below [OF d] r show len: "r < length h" by blast
  with documents_tagged_below [OF d] have t: "tagged_below (h ! r)" by simp
  then show "first_level_tagged (h ! r)" by (rule tagged_below_first_level)
  assume "directly_inside (h ! r)"
  with t show "parent_folder_tagged (h ! r)" by (rule tagged_below_parent)
next
  fix c assume "chunks split_text files = Inr cs" and "c \<in> set cs"
  then have t: "tagged_below c" by (rule chunks_tagged_below)
  then show "first_level_tagged c" by (rule tagged_below_first_level)
  assume "directly_inside c"
  with t show "parent_folder_tagged c" by (rule tagged_below_parent)
qed

lemma folders_flat_fs: "folders flat_fs = [''knowledge-base/faq'', ''knowledge-base/policies'']"
  by (simp add: folders_def glob_star_def flat_fs_def is_child_def is_hidden_def basename_def)

lemma load_flat_fs:
  "directory_loader_load flat_fs ''knowledge-base/faq'' =
     Inr [\<lparr>page_content = ''question'', metadata = [''source'' \<mapsto> ''knowledge-base/faq/q.md'']\<rparr>]"
  "directory_loader_load flat_fs ''knowledge-base/policies'' =
     Inr [\<lparr>page_content = ''policy'', metadata = [''source'' \<mapsto> ''knowledge-base/policies/p.md'']\<rparr>]"
  by (simp_all add: directory_loader_load_def flat_fs_def is_under_def relative_to_def
        is_visible_def is_hidden_def basename_def suffix_to_prefix)

lemma documents_flat_fs:
  "\<exists>h. documents flat_fs = Inr ([0, 1], h) \<and> length h = 2
       \<and> directly_inside (h ! 0) \<and> directly_inside (h ! 1)"
  by (simp add: documents_def folders_flat_fs load_flat_fs alloc_def add_metadata_def
        directly_inside_def basename_def)

theorem doc_type_is_first_level_folder_witness:
  "\<exists>h cs. documents flat_fs = Inr ([0, 1], h) \<and> chunks whole_text flat_fs = Inr cs
     \<and> length cs = 2
     \<and> list_all (\<lambda>r. first_level_tagged (h ! r) \<and> parent_folder_tagged (h ! r)) [0, 1]
     \<and> list_all first_level_tagged cs"
proof -
  from documents_flat_fs obtain h where
    h: "documents flat_fs = Inr ([0, 1], h)" "length h = 2"
       "directly_inside (h ! 0)" "directly_inside (h ! 1)"
    by blast
  define cs where "cs = split_documents whole_text (map (\<lambda>r. h ! r) [0, 1])"
  have c: "chunks whole_text flat_fs = Inr cs"
    by (simp add: chunks_def h(1) cs_def)
  have l: "length cs = 2"
    by (simp add: cs_def split_documents_def whole_text_def)
  from doc_type_is_first_level_folder [of flat_fs "[0, 1]" h whole_text cs] h c
  have "list_all (\<lambda>r. first_level_tagged (h ! r) \<and> parent_folder_tagged (h ! r)) [0, 1]"
    and "list_all first_level_tagged cs"
    by (simp_all add: list_all_iff)
  with h(1) c l show ?thesis by blast
qed

theorem doc_type_parent_folder_counterexample:
  "(case chunks whole_text nested_fs of
      Inr [c] \<Rightarrow>
        metadata c ''source'' = Some ''knowledge-base/a/b/c.md''
        \<and> metadata c ''doc_type'' = Some ''a''
        \<and> \<not> parent_folder_tagged c
    | _ \<Rightarrow> False)
   \<and> basename (dirname ''knowledge-base/a/b/c.md'') = ''b''"
proof -
  have f: "folders nested_fs = [''knowledge-base/a'']"
    by (simp add: folders_def glob_star_def nested_fs_def is_child_def is_hidden_def basename_def)
  have l: "directory_loader_load nested_fs ''knowledge-base/a'' =
      Inr [\<lparr>page_content = ''text'', metadata = [''source'' \<mapsto> ''knowledge-base/a/b/c.md'']\<rparr>]"
    by (simp add: directory_loader_load_def nested_fs_def is_under_def relative_to_def
          is_visible_def is_hidden_def basename_def suffix_to_prefix)
  show ?thesis
    by (simp add: chunks_def documents_def f l alloc_def add_metadata_def split_documents_def
          whole_text_def parent_folder_tagged_def basename_def dirname_def)
qed

section \<open>A missing knowledge-base directory\<close>

text \<open>
  C8 (as amended): when the knowledge-base root directory does not exist, the folder
  list is empty, loading and chunking finish without an error, and the corpus is
  empty: no document and no chunk.
\<close>

theorem missing_root_gives_empty_corpus:
  assumes "map_of files ''knowledge-base'' = None"
  shows "folders files = [] \<and> documents files = Inr ([], [])
         \<and> chunks split_text files = Inr []"
proof -
  have f: "folders files = []"
    using assms by (simp add: folders_def glob_star_def)
  then have d: "documents files = Inr ([], [])"
    by (simp add: documents_def)
  then have "chunks split_text files = Inr []"
    by (simp add: chunks_def split_documents_def)
  with f d show ?thesis by simp
qed

theorem missing_root_gives_empty_corpus_witness:
  "map_of [(''vector_db'', DirE)] ''knowledge-base'' = None
   \<and> folders [(''vector_db'', DirE)] = []
   \<and> documents [(''vector_db'', DirE)] = Inr ([], [])
   \<and> chunks whole_text [(''vector_db'', DirE)] = Inr []"
proof -
  have m: "map_of [(''vector_db'', DirE)] ''knowledge-base'' = None"
    by simp
  from missing_root_gives_empty_corpus [OF m, of whole_text] m show ?thesis by simp
qed

theorem missing_root_fails_counterexample:
  "map_of no_root_fs ''knowledge-base'' = None
   \<and> documents no_root_fs = Inr ([], []) \<and> chunks whole_text no_root_fs = Inr []"
  by (simp add: no_root_fs_def documents_def folders_def glob_star_def chunks_def
        split_documents_def)

section \<open>The frame of add_metadata\<close>

text \<open>
  C10: \<open>add_metadata(doc, doc_type)\<close> returns the reference it was given; in the object
  it refers to, the key \<open>doc_type\<close> now holds \<open>doc_type\<close>, every other metadata key (the
  source path among them) and the page content are as before; every other object of
  the heap is unchanged.
\<close>

theorem add_metadata_frame:
  assumes "doc < length h" and "add_metadata doc doc_type h = (r, h')"
  shows "r = doc \<and> length h' = length h
       \<and> page_content (h' ! doc) = page_content (h ! doc)
       \<and> metadata (h' ! doc) ''doc_type'' = Some doc_type
       \<and> (\<forall>k. k \<noteq> ''doc_type'' \<longrightarrow> metadata (h' ! doc) k = metadata (h ! doc) k)
       \<and> (\<forall>r'. r' < length h \<longrightarrow> r' \<noteq> doc \<longrightarrow> h' ! r' = h ! r')"
  using assms by (auto simp: add_metadata_def)

theorem add_metadata_frame_witness:
  "\<exists>h'. add_metadata 1 ''faq'' two_chunks = (1, h') \<and> length h' = 2
     \<and> page_content (h' ! 1) = ''beta''
     \<and> metadata (h' ! 1) ''doc_type'' = Some ''faq''
     \<and> metadata (h' ! 1) ''source'' = metadata (two_chunks ! 1) ''source''
     \<and> h' ! 0 = two_chunks ! 0"
proof -
  obtain r h' where a: "add_metadata 1 ''faq'' two_chunks = (r, h')"
    by (cases "add_metadata 1 ''faq'' two_chunks")
  have l: "1 < length two_chunks" by (simp add: two_chunks_def)
  from add_metadata_frame [OF l a] a l show ?thesis
    by (auto simp: two_chunks_def)
qed

section \<open>The chat callback and its history argument\<close>

text \<open>
  C9: the result of \<open>chat(question, history)\<close>, and the state it leaves the chain in,
  are the same for any two \<open>history\<close> arguments: they depend on the question and the
  chain's own state only.
\<close>

theorem chat_ignores_history:
  "chat conversation_chain question history1 s = chat conversation_chain question history2 s"
  by (simp add: chat_def)

section \<open>Rebuilding the vector store\<close>

lemma embed_documents_length:
  "embed_documents embeddings ts = Inr vs \<Longrightarrow> length vs = length ts"
  by (induction ts arbitrary: vs) (auto split: sum.splits)

lemma add_empty_store_count:
  "add es empty_store = Inr s \<Longrightarrow> count s = length es"
  by (auto simp: add_def empty_store_def dimension_def count_def
           split: option.splits list.splits if_splits)

lemma rebuild_fresh:
  "rebuild embeddings cs db = from_documents embeddings cs None"
  by (cases db) (simp_all add: rebuild_def from_documents_def reset_def split: sum.splits)

lemma embed_documents_ok:
  assumes "\<forall>t \<in> set ts. \<exists>v. embeddings t = Inr v \<and> length v = D"
  shows "\<exists>vs. embed_documents embeddings ts = Inr vs \<and> length vs = length ts
              \<and> (\<forall>v \<in> set vs. length v = D)"
  using assms
proof (induction ts)
  case Nil
  then show ?case by simp
next
  case (Cons t ts)
  from Cons.prems obtain v where v: "embeddings t = Inr v" "length v = D" by auto
  from Cons obtain vs where
    vs: "embed_documents embeddings ts = Inr vs" "length vs = length ts"
        "\<forall>v \<in> set vs. length v = D"
    by auto
  show ?case using v vs by simp
qed

lemma add_uniform:
  assumes "\<forall>e \<in> set es. length (ec_vector e) = D"
  shows "\<exists>s. add es empty_store = Inr s"
  using assms
  by (cases es) (auto simp: add_def dimension_def empty_store_def list_all_iff)

lemma from_documents_ok:
  assumes "\<forall>c \<in> set cs. \<exists>v. embeddings (page_content c) = Inr v \<and> length v = D"
  shows "\<exists>s. from_documents embeddings cs None = Inr s"
proof -
  from assms have "\<forall>t \<in> set (map page_content cs). \<exists>v. embeddings t = Inr v \<and> length v = D"
    by simp
  from embed_documents_ok [OF this] obtain vs where
    vs: "embed_documents embeddings (map page_content cs) = Inr vs"
        "\<forall>v \<in> set vs. length v = D"
    by blast
  have "\<forall>e \<in> set (map (\<lambda>(c, v). \<lparr>ec_chunk = c, ec_vector = v\<rparr>) (zip cs vs)).
          length (ec_vector e) = D"
    using vs(2) by (auto dest: set_zip_rightD)
  from add_uniform [OF this] show ?thesis
    by (simp add: from_documents_def vs(1))
qed

lemma add_empty_store_entries:
  "add es empty_store = Inr s \<Longrightarrow> entries s = zip [0 ..< length es] es"
  by (auto simp: add_def empty_store_def dimension_def
           split: option.splits list.splits if_splits)

lemma map_snd_zip_upt: "map snd (zip [0 ..< length xs] xs) = xs"
  by (simp add: map_snd_zip)

lemma map_fst_zip_upt: "map fst (zip [0 ..< length xs] xs) = [0 ..< length xs]"
  by (simp add: map_fst_zip)

lemma embedded_chunks_of_zip:
  assumes "length vs = length cs"
  shows "map ec_chunk (map (\<lambda>(c, v). \<lparr>ec_chunk = c, ec_vector = v\<rparr>) (zip cs vs)) = cs"
    and "map ec_vector (map (\<lambda>(c, v). \<lparr>ec_chunk = c, ec_vector = v\<rparr>) (zip cs vs)) = vs"
  using assms by (induction cs vs rule: list_induct2') simp_all

text \<open>
  C4: a rebuild (delete the persisted collection if there is one, add the chunks, count)
  that succeeds leaves a store that holds exactly the chunks added, in their order, each
  with the vector the embedding service gave for its text and under an identifier of its
  own, and nothing of what the store held before: no stale and no duplicate vector. Its
  count is the number of chunks added. Rebuilding again from the same chunks over the
  result gives the same store, hence the same count. The rebuild succeeds whenever the
  embedding service answers every chunk with a vector of one dimension.
\<close>

theorem rebuild_count:
  "(rebuild embeddings cs db = Inr s \<longrightarrow>
      count s = length cs
      \<and> map (ec_chunk \<circ> snd) (entries s) = cs
      \<and> embed_documents embeddings (map page_content cs)
          = Inr (map (ec_vector \<circ> snd) (entries s))
      \<and> map fst (entries s) = [0 ..< length cs]
      \<and> rebuild embeddings cs (Some s) = Inr s)
   \<and> ((\<forall>c \<in> set cs. \<exists>v. embeddings (page_content c) = Inr v \<and> length v = D) \<longrightarrow>
      (\<exists>s'. rebuild embeddings cs db = Inr s'))"
proof (intro conjI impI)
  assume r: "rebuild embeddings cs db = Inr s"
  then have f: "from_documents embeddings cs None = Inr s"
    by (simp add: rebuild_fresh)
  then obtain vs where
    vs: "embed_documents embeddings (map page_content cs) = Inr vs"
    and a: "add (map (\<lambda>(c, v). \<lparr>ec_chunk = c, ec_vector = v\<rparr>) (zip cs vs)) empty_store = Inr s"
    by (auto simp: from_documents_def split: sum.splits)
  let ?es = "map (\<lambda>(c, v). \<lparr>ec_chunk = c, ec_vector = v\<rparr>) (zip cs vs)"
  have len: "length vs = length cs"
    using embed_documents_length [OF vs] by simp
  then have les: "length ?es = length cs" by simp
  have en: "entries s = zip [0 ..< length ?es] ?es"
    by (rule add_empty_store_entries [OF a])
  have sn: "map snd (entries s) = ?es"
    unfolding en by (rule map_snd_zip_upt)
  show "count s = length cs"
    using add_empty_store_count [OF a] len by simp
  have "map (ec_chunk \<circ> snd) (entries s) = map ec_chunk (map snd (entries s))"
    by simp
  also have "\<dots> = cs"
    unfolding sn by (rule embedded_chunks_of_zip(1) [OF len])
  finally show "map (ec_chunk \<circ> snd) (entries s) = cs" .
  have "map (ec_vector \<circ> snd) (entries s) = map ec_vector (map snd (entries s))"
    by simp
  also have "\<dots> = vs"
    unfolding sn by (rule embedded_chunks_of_zip(2) [OF len])
  finally show "embed_documents embeddings (map page_content cs)
      = Inr (map (ec_vector \<circ> snd) (entries s))"
    using vs by simp
  have "map fst (entries s) = [0 ..< length ?es]"
    unfolding en by (rule map_fst_zip_upt)
  then show "map fst (entries s) = [0 ..< length cs]"
    using les by simp
  show "rebuild embeddings cs (Some s) = Inr s"
    using f by (simp add: rebuild_fresh)
next
  assume "\<forall>c \<in> set cs. \<exists>v. embeddings (page_content c) = Inr v \<and> length v = D"
  then show "\<exists>s'. rebuild embeddings cs db = Inr s'"
    unfolding rebuild_fresh by (rule from_documents_ok)
qed

theorem rebuild_count_witness:
  "map (page_content \<circ> ec_chunk \<circ> snd) (entries stale_store) = [''old'']
   \<and> (\<exists>s. rebuild unit_embedding two_chunks (Some stale_store) = Inr s \<and> count s = 2
        \<and> map (ec_chunk \<circ> snd) (entries s) = two_chunks
        \<and> map (page_content \<circ> ec_chunk \<circ> snd) (entries s) = [''alpha'', ''beta'']
        \<and> map (ec_vector \<circ> snd) (entries s) = [[5, 1], [4, 1]]
        \<and> map fst (entries s) = [0, 1]
        \<and> rebuild unit_embedding two_chunks (Some s) = Inr s)"
proof -
  have e: "\<forall>c \<in> set two_chunks. \<exists>v. unit_embedding (page_content c) = Inr v \<and> length v = 2"
    by (simp add: two_chunks_def unit_embedding_def)
  have l: "length two_chunks = 2" by (simp add: two_chunks_def)
  have u: "[0 ..< 2] = [0, Suc 0]" by (simp add: upt_rec)
  have v: "embed_documents unit_embedding (map page_content two_chunks) = Inr [[5, 1], [4, 1]]"
    by (simp add: two_chunks_def unit_embedding_def)
  note t = rebuild_count [of unit_embedding two_chunks "Some stale_store" _ 2]
  from t e obtain s where s: "rebuild unit_embedding two_chunks (Some stale_store) = Inr s"
    by blast
  from t [of s] s l u v have
    c: "count s = 2" "map (ec_chunk \<circ> snd) (entries s) = two_chunks"
       "map (ec_vector \<circ> snd) (entries s) = [[5, 1], [4, 1]]"
       "map fst (entries s) = [0, 1]"
       "rebuild unit_embedding two_chunks (Some s) = Inr s"
    by simp_all
  have "map (page_content \<circ> ec_chunk \<circ> snd) (entries s)
        = map page_content (map (ec_chunk \<circ> snd) (entries s))"
    by simp
  also have "\<dots> = [''alpha'', ''beta'']"
    unfolding c(2) by (simp add: two_chunks_def)
  finally have p: "map (page_content \<circ> ec_chunk \<circ> snd) (entries s) = [''alpha'', ''beta'']" .
  have o: "map (page_content \<circ> ec_chunk \<circ> snd) (entries stale_store) = [''old'']"
    by (simp add: stale_store_def)
  show ?thesis
    by (intro conjI exI [of _ s]) (rule o s c p)+
qed

section \<open>A failed chat-completion call\<close>

text \<open>
  C7: a turn whose chat-completion call fails returns that error to the caller of
  \<open>chat\<close> and leaves the conversation memory exactly as it was: no turn is recorded.
\<close>

theorem failed_llm_keeps_memory:
  assumes "embeddings question = Inr v"
    and "llm (assemble_prompt (retriever v) (memory_history m) question) = Inl e"
  shows "chat (conversation_chain_invoke embeddings retriever llm) question history m
         = (Inl e, m)"
  using assms by (simp add: chat_def conversation_chain_invoke_def)

theorem failed_llm_keeps_memory_witness:
  "chat (conversation_chain_invoke unit_embedding no_context failing_llm) ''why?'' [] one_turn
     = (Inl (ServiceError ''rate limit''), one_turn)
   \<and> length (memory_history one_turn) = 1"
proof -
  have e: "unit_embedding ''why?'' = Inr [4, 1]"
    by (simp add: unit_embedding_def)
  have l: "failing_llm (assemble_prompt (no_context [4, 1]) (memory_history one_turn) ''why?'')
           = Inl (ServiceError ''rate limit'')"
    by (simp add: failing_llm_def)
  from failed_llm_keeps_memory
         [where embeddings = unit_embedding and llm = failing_llm and retriever = no_context
            and history = "[]", OF e l]
  show ?thesis
    by (simp add: memory_history_def one_turn_def)
qed

end
